theory Spec2Isabelle
  imports Complex_Main
begin

section \<open>Strings and names\<close>

text \<open>
  Strings are lists of 8-bit characters; the letters that \<^verbatim>\<open>ToUpper\<close>, the comparison of
  names and the regular expression classes \<^verbatim>\<open>\d\<close> and \<^verbatim>\<open>\w\<close> act on are the ASCII ones.
\<close>

definition char_ToUpper :: "char \<Rightarrow> char" where
  "char_ToUpper c =
     (case map_of (zip ''abcdefghijklmnopqrstuvwxyz'' ''ABCDEFGHIJKLMNOPQRSTUVWXYZ'') c of
        Some u \<Rightarrow> u
      | None \<Rightarrow> c)"

definition ToUpper :: "string \<Rightarrow> string" where
  "ToUpper s = map char_ToUpper s"

text \<open>
  The engine's tables with \<^verbatim>\<open>FString\<close> keys (\<^verbatim>\<open>TMap<FString, ...>\<close>: the fields of a JSON
  object, the route table) find a key with \<^verbatim>\<open>FString\<close>'s equality, which ignores case.
\<close>

definition SameName :: "string \<Rightarrow> string \<Rightarrow> bool" where
  "SameName a b \<longleftrightarrow> ToUpper a = ToUpper b"

section \<open>Structured values (the JSON document model)\<close>

text \<open>
  The router and the batch endpoint of UnrealPythonREST exchange JSON documents. A JSON value
  is a tagged union; a JSON object (\<^verbatim>\<open>FJsonObject\<close>) is a table from field names to values,
  kept here as an association list in insertion order. A shared pointer to an object
  (\<^verbatim>\<open>TSharedPtr<FJsonObject>\<close>) is an \<open>option\<close>: \<open>None\<close> is the null pointer, and
  \<^verbatim>\<open>IsValid()\<close> is \<open>\<noteq> None\<close>. JSON numbers are doubles; they are kept as reals, and the two
  places where a number is rendered as text are parameters of the model (see \<open>platform\<close>).
  Field names are found ignoring case, as the engine's table does.
\<close>

datatype json =
    JNull
  | JBool bool
  | JNumber real
  | JString string
  | JArray "json list"
  | JObject "(string \<times> json) list"

type_synonym FJsonObject = "(string \<times> json) list"

text \<open>
  Conversions of the engine's string and JSON classes that the sources call but do not
  define: \<^verbatim>\<open>FString::Printf("%g", x)\<close>, the text of a number value
  (\<^verbatim>\<open>FJsonValueNumber::AsString\<close>), \<^verbatim>\<open>FString::ToBool\<close>, and what \<^verbatim>\<open>FCString::Atoi\<close> returns for
  digits whose value does not fit an \<^verbatim>\<open>int32\<close> (the largest \<^verbatim>\<open>int32\<close> with one C library, the
  truncated \<^verbatim>\<open>long\<close> with another). They are taken as parameters.
\<close>

record platform =
  Printf_g :: "real \<Rightarrow> string"
  NumberAsString :: "real \<Rightarrow> string"
  StringToBool :: "string \<Rightarrow> bool"
  AtoiOverflow :: "string \<Rightarrow> int"

text \<open>\<^verbatim>\<open>Values.Find(FieldName)\<close>: the value of the first field with this name, case ignored.\<close>

fun FindField :: "FJsonObject \<Rightarrow> string \<Rightarrow> json option" where
  "FindField [] FieldName = None"
| "FindField (Entry # Entries) FieldName =
     (if SameName (fst Entry) FieldName then Some (snd Entry) else FindField Entries FieldName)"

definition HasField :: "FJsonObject \<Rightarrow> string \<Rightarrow> bool" where
  "HasField obj FieldName \<longleftrightarrow> FindField obj FieldName \<noteq> None"

definition TryGetField :: "FJsonObject \<Rightarrow> string \<Rightarrow> json option" where
  "TryGetField obj FieldName = FindField obj FieldName"

text \<open>
  \<^verbatim>\<open>FJsonValue::AsObject\<close>: the object of an object value; for any other value the engine
  returns its shared empty object, a valid pointer, so the result is never null.
\<close>

fun AsObject :: "json \<Rightarrow> FJsonObject option" where
  "AsObject (JObject obj) = Some obj"
| "AsObject _ = Some []"

fun AsString :: "platform \<Rightarrow> json \<Rightarrow> string" where
  "AsString E (JString s) = s"
| "AsString E (JNumber x) = NumberAsString E x"
| "AsString E (JBool b) = (if b then ''true'' else ''false'')"
| "AsString E _ = []"

fun AsBool :: "platform \<Rightarrow> json \<Rightarrow> bool" where
  "AsBool E (JBool b) = b"
| "AsBool E (JNumber x) = (x \<noteq> 0)"
| "AsBool E (JString s) = StringToBool E s"
| "AsBool E _ = False"

text \<open>
  The typed getters. A missing field reads as the null value. \<^verbatim>\<open>GetObjectField\<close> yields the
  object of an object value and the empty object for a missing field or any other value;
  \<^verbatim>\<open>GetStringField\<close> and \<^verbatim>\<open>GetBoolField\<close> convert whatever value the field holds.
\<close>

definition GetObjectField :: "FJsonObject \<Rightarrow> string \<Rightarrow> FJsonObject option" where
  "GetObjectField obj FieldName =
     (case FindField obj FieldName of None \<Rightarrow> Some [] | Some v \<Rightarrow> AsObject v)"

definition GetStringField :: "platform \<Rightarrow> FJsonObject \<Rightarrow> string \<Rightarrow> string" where
  "GetStringField E obj FieldName =
     (case FindField obj FieldName of None \<Rightarrow> [] | Some v \<Rightarrow> AsString E v)"

definition GetBoolField :: "platform \<Rightarrow> FJsonObject \<Rightarrow> string \<Rightarrow> bool" where
  "GetBoolField E obj FieldName =
     (case FindField obj FieldName of None \<Rightarrow> False | Some v \<Rightarrow> AsBool E v)"

definition TryGetArrayField :: "FJsonObject \<Rightarrow> string \<Rightarrow> json list option" where
  "TryGetArrayField obj FieldName =
     (case FindField obj FieldName of Some (JArray xs) \<Rightarrow> Some xs | _ \<Rightarrow> None)"

text \<open>
  Setting a field (\<^verbatim>\<open>Values.Add\<close>) replaces the field that has this name, case ignored, and
  appends a new field otherwise.
\<close>

fun SetField :: "FJsonObject \<Rightarrow> string \<Rightarrow> json \<Rightarrow> FJsonObject" where
  "SetField [] FieldName v = [(FieldName, v)]"
| "SetField (Entry # Entries) FieldName v =
     (if SameName (fst Entry) FieldName then (FieldName, v) # Entries
      else Entry # SetField Entries FieldName v)"

definition SetBoolField :: "FJsonObject \<Rightarrow> string \<Rightarrow> bool \<Rightarrow> FJsonObject" where
  "SetBoolField obj FieldName b = SetField obj FieldName (JBool b)"

definition SetStringField :: "FJsonObject \<Rightarrow> string \<Rightarrow> string \<Rightarrow> FJsonObject" where
  "SetStringField obj FieldName s = SetField obj FieldName (JString s)"

definition SetNumberField :: "FJsonObject \<Rightarrow> string \<Rightarrow> real \<Rightarrow> FJsonObject" where
  "SetNumberField obj FieldName x = SetField obj FieldName (JNumber x)"

definition SetObjectField :: "FJsonObject \<Rightarrow> string \<Rightarrow> FJsonObject \<Rightarrow> FJsonObject" where
  "SetObjectField obj FieldName v = SetField obj FieldName (JObject v)"

definition SetArrayField :: "FJsonObject \<Rightarrow> string \<Rightarrow> json list \<Rightarrow> FJsonObject" where
  "SetArrayField obj FieldName xs = SetField obj FieldName (JArray xs)"

section \<open>The path resolver: \<^verbatim>\<open>ExtractJsonPath\<close>\<close>

text \<open>
  \<^verbatim>\<open>Path.ParseIntoArray(Parts, ".")\<close> cuts the path at every delimiter and, with the default
  of its third parameter, drops the empty pieces. \<open>cur\<close> is the piece being read.
\<close>

fun ParseIntoArray_from :: "char \<Rightarrow> string \<Rightarrow> string \<Rightarrow> string list" where
  "ParseIntoArray_from d cur [] = (if cur = [] then [] else [cur])"
| "ParseIntoArray_from d cur (c # cs) =
     (if c = d
      then (if cur = [] then ParseIntoArray_from d [] cs else cur # ParseIntoArray_from d [] cs)
      else ParseIntoArray_from d (cur @ [c]) cs)"

definition ParseIntoArray :: "string \<Rightarrow> char \<Rightarrow> string list" where
  "ParseIntoArray s d = ParseIntoArray_from d [] s"

text \<open>
  The loop of \<^verbatim>\<open>ExtractJsonPath\<close> over all parts but the last. The outer \<open>None\<close> is the
  \<^verbatim>\<open>return nullptr\<close> inside the loop; \<open>Some Current\<close> is the pointer the loop ends with.
\<close>

fun ExtractJsonPath_loop :: "FJsonObject option \<Rightarrow> string list \<Rightarrow> FJsonObject option option" where
  "ExtractJsonPath_loop Current [] = Some Current"
| "ExtractJsonPath_loop Current (Part # Parts) =
     (case Current of
        None \<Rightarrow> None
      | Some obj \<Rightarrow>
          if \<not> HasField obj Part then None
          else ExtractJsonPath_loop (GetObjectField obj Part) Parts)"

definition ExtractJsonPath :: "FJsonObject option \<Rightarrow> string \<Rightarrow> json option" where
  "ExtractJsonPath Root Path =
     (let Parts = ParseIntoArray Path CHR ''.'' in
      case ExtractJsonPath_loop Root (butlast Parts) of
        None \<Rightarrow> None
      | Some Current \<Rightarrow>
          (case Current of
             None \<Rightarrow> None
           | Some obj \<Rightarrow>
               if Parts \<noteq> [] \<and> HasField obj (last Parts)
               then TryGetField obj (last Parts) else None))"

subsection \<open>The resolver as the specification words it\<close>

text \<open>
  The specification's resolver: split the path at every dot (every piece kept, also the
  empty ones), walk all pieces but the last through objects that contain the piece, and
  return what the last piece names. \<open>walk_by\<close> is this walk for a given way of looking a
  name up in an object; the specification's objects contain a key when a field has exactly
  this name (\<open>map_of\<close>).
\<close>

fun spec_split :: "char \<Rightarrow> string \<Rightarrow> string list" where
  "spec_split d [] = [[]]"
| "spec_split d (c # cs) =
     (if c = d then [] # spec_split d cs
      else (case spec_split d cs of [] \<Rightarrow> [[c]] | s # ss \<Rightarrow> (c # s) # ss))"

fun walk_by :: "(FJsonObject \<Rightarrow> string \<Rightarrow> json option) \<Rightarrow> json \<Rightarrow> string list \<Rightarrow> json option" where
  "walk_by lookup v [] = None"
| "walk_by lookup v (k # ks) =
     (case v of
        JObject obj \<Rightarrow>
          (case lookup obj k of
             None \<Rightarrow> None
           | Some v' \<Rightarrow> if ks = [] then Some v' else walk_by lookup v' ks)
      | _ \<Rightarrow> None)"

definition spec_resolve :: "json \<Rightarrow> string \<Rightarrow> json option" where
  "spec_resolve Root Path = walk_by map_of Root (spec_split CHR ''.'' Path)"

section \<open>Character classes, numbers and replacement\<close>

definition is_digit :: "char \<Rightarrow> bool" where
  "is_digit c \<longleftrightarrow> c \<in> set ''0123456789''"

definition is_word :: "char \<Rightarrow> bool" where
  "is_word c \<longleftrightarrow>
     c \<in> set ''abcdefghijklmnopqrstuvwxyzABCDEFGHIJKLMNOPQRSTUVWXYZ0123456789_''"

text \<open>The character class \<^verbatim>\<open>[\w\.]\<close> of the reference pattern.\<close>

definition is_path_char :: "char \<Rightarrow> bool" where
  "is_path_char c \<longleftrightarrow> is_word c \<or> c = CHR ''.''"

definition digit_value :: "char \<Rightarrow> int" where
  "digit_value c =
     (case map_of (zip ''0123456789'' [0, 1, 2, 3, 4, 5, 6, 7, 8, 9]) c of
        Some n \<Rightarrow> n
      | None \<Rightarrow> 0)"

text \<open>
  \<^verbatim>\<open>FCString::Atoi\<close> on the digits the pattern captured, kept in an \<^verbatim>\<open>int32\<close>: their decimal
  value when it is at most \<open>2^31 - 1\<close>, and what the platform's C library makes of them
  otherwise, brought into the range of an \<^verbatim>\<open>int32\<close>.
\<close>

definition int32 :: "int \<Rightarrow> int" where
  "int32 x = (x + 2 ^ 31) mod 2 ^ 32 - 2 ^ 31"

definition Atoi :: "platform \<Rightarrow> string \<Rightarrow> int" where
  "Atoi E s =
     (let v = foldl (\<lambda>n c. 10 * n + digit_value c) 0 (takeWhile is_digit s) in
      if v < 2 ^ 31 then v else int32 (AtoiOverflow E s))"

text \<open>
  \<^verbatim>\<open>FString::Replace(From, To, SearchCase)\<close> replaces every occurrence of \<open>From\<close>, scanning
  from the left and continuing behind each replacement. The third parameter defaults to
  \<^verbatim>\<open>ESearchCase::IgnoreCase\<close>, and the sources call it with two arguments.
\<close>

datatype ESearchCase = CaseSensitive | IgnoreCase

definition StartsWith :: "string \<Rightarrow> string \<Rightarrow> ESearchCase \<Rightarrow> bool" where
  "StartsWith s Prefix SearchCase \<longleftrightarrow>
     length Prefix \<le> length s \<and>
     (case SearchCase of
        CaseSensitive \<Rightarrow> take (length Prefix) s = Prefix
      | IgnoreCase \<Rightarrow> ToUpper (take (length Prefix) s) = ToUpper Prefix)"

function Replace :: "string \<Rightarrow> string \<Rightarrow> string \<Rightarrow> ESearchCase \<Rightarrow> string" where
  "Replace [] From To SearchCase = []"
| "Replace (c # cs) From To SearchCase =
     (if From = [] then c # cs
      else if StartsWith (c # cs) From SearchCase
      then To @ Replace (drop (length From) (c # cs)) From To SearchCase
      else c # Replace cs From To SearchCase)"
  by pat_completeness auto
termination
  by (relation "measure (\<lambda>(s, From, To, SearchCase). length s)") auto

section \<open>Variable references: \<^verbatim>\<open>ResolveStringVariables\<close> and \<^verbatim>\<open>ResolveVariableReferences\<close>\<close>

text \<open>
  The matches of the pattern \<^verbatim>\<open>\$(\d+)(\.([\w\.]+))?\<close> in a string, in the order
  \<^verbatim>\<open>FRegexMatcher::FindNext\<close> yields them. Each match is the triple of capture group 0 (the
  whole match), group 1 (the digits) and group 3 (the dotted path, empty when the optional
  group did not take part). Both repetitions are greedy, and the search for the next match
  starts behind the previous one.
\<close>

type_synonym regex_match = "string \<times> string \<times> string"

function FindMatches :: "string \<Rightarrow> regex_match list" where
  "FindMatches [] = []"
| "FindMatches (c # cs) =
     (if c = CHR ''$'' \<and> takeWhile is_digit cs \<noteq> []
      then (let ds = takeWhile is_digit cs in
            case dropWhile is_digit cs of
              [] \<Rightarrow> [(c # ds, ds, [])]
            | d # rest \<Rightarrow>
                if d = CHR ''.'' \<and> takeWhile is_path_char rest \<noteq> []
                then (let p = takeWhile is_path_char rest in
                      (c # ds @ d # p, ds, p) # FindMatches (dropWhile is_path_char rest))
                else (c # ds, ds, []) # FindMatches (d # rest))
      else FindMatches cs)"
  by pat_completeness auto
termination
proof (relation "measure length", goal_cases)
  case 1
  show ?case by simp
next
  case (2 c cs ds d rest p)
  have "length (dropWhile is_path_char rest) \<le> length rest"
    by (rule length_dropWhile_le)
  moreover have "length (dropWhile is_digit cs) \<le> length cs"
    by (rule length_dropWhile_le)
  ultimately show ?case using 2 by simp
next
  case (3 c cs ds d rest)
  have "length (dropWhile is_digit cs) \<le> length cs"
    by (rule length_dropWhile_le)
  then show ?case using 3 by simp
next
  case (4 c cs)
  show ?case by simp
qed

text \<open>
  The body of the \<^verbatim>\<open>while (Matcher.FindNext())\<close> loop for one match: \<open>Result\<close> is the string
  built so far, and the value returned is \<open>Result\<close> after the iteration.
\<close>

definition ResolveMatch ::
  "platform \<Rightarrow> FJsonObject option list \<Rightarrow> regex_match \<Rightarrow> string \<Rightarrow> string" where
  "ResolveMatch E PreviousResults m Result =
     (case m of (FullMatch, Group1, JsonPath) \<Rightarrow>
        let Index = Atoi E Group1 in
        if 0 \<le> Index \<and> Index < int (length PreviousResults)
        then (let ResultData = PreviousResults ! nat Index in
              if ResultData \<noteq> None
              then (if JsonPath = [] then Result
                    else (case ExtractJsonPath ResultData JsonPath of
                            Some (JString s) \<Rightarrow> Replace Result FullMatch s IgnoreCase
                          | Some (JNumber x) \<Rightarrow> Replace Result FullMatch (Printf_g E x) IgnoreCase
                          | _ \<Rightarrow> Result))
              else Result)
        else Result)"

definition ResolveStringVariables ::
  "platform \<Rightarrow> string \<Rightarrow> FJsonObject option list \<Rightarrow> string" where
  "ResolveStringVariables E Value PreviousResults =
     fold (ResolveMatch E PreviousResults) (FindMatches Value) Value"

text \<open>\<^verbatim>\<open>SetObjectField\<close> with a shared pointer: a null pointer stores the null value.\<close>

definition SetObjectFieldPtr :: "FJsonObject \<Rightarrow> string \<Rightarrow> FJsonObject option \<Rightarrow> FJsonObject" where
  "SetObjectFieldPtr obj FieldName v =
     (case v of None \<Rightarrow> SetField obj FieldName JNull | Some w \<Rightarrow> SetObjectField obj FieldName w)"

fun ResolveVariableReferences ::
  "platform \<Rightarrow> FJsonObject option \<Rightarrow> FJsonObject option list \<Rightarrow> FJsonObject option" where
  "ResolveVariableReferences E None PreviousResults = None"
| "ResolveVariableReferences E (Some Body) PreviousResults =
     Some (fold (\<lambda>Field Resolved.
                   case snd Field of
                     JString Value \<Rightarrow>
                       SetStringField Resolved (fst Field)
                         (ResolveStringVariables E Value PreviousResults)
                   | JObject NestedObj \<Rightarrow>
                       SetObjectFieldPtr Resolved (fst Field)
                         (ResolveVariableReferences E (Some NestedObj) PreviousResults)
                   | _ \<Rightarrow> SetField Resolved (fst Field) (snd Field))
                Body [])"

text \<open>
  A match triggers a replacement exactly when its index is within the previous results, it
  has a dotted path, and the path resolves to a string or a number.
\<close>

definition Substitutes :: "platform \<Rightarrow> FJsonObject option list \<Rightarrow> regex_match \<Rightarrow> bool" where
  "Substitutes E PreviousResults m \<longleftrightarrow>
     (case m of (FullMatch, Group1, JsonPath) \<Rightarrow>
        0 \<le> Atoi E Group1 \<and> Atoi E Group1 < int (length PreviousResults) \<and> JsonPath \<noteq> [] \<and>
        (case ExtractJsonPath (PreviousResults ! nat (Atoi E Group1)) JsonPath of
           Some (JString s) \<Rightarrow> True
         | Some (JNumber x) \<Rightarrow> True
         | _ \<Rightarrow> False))"

section \<open>The router: requests, responses and dispatch\<close>

datatype ERESTMethod = GET | POST | PUT | DELETE

record FRESTRequest =
  Path :: string
  Method :: ERESTMethod
  QueryParams :: "(string \<times> string) list"
  PathParams :: "(string \<times> string) list"
  Body :: string
  JsonBody :: "FJsonObject option"

text \<open>
  The response; its JSON body is the field \<^verbatim>\<open>JsonBody\<close> of \<^verbatim>\<open>FRESTResponse\<close>, named
  \<open>ResponseJson\<close> here because the request has a field of the same name.
\<close>

record FRESTResponse =
  StatusCode :: int
  ResponseJson :: "FJsonObject option"
  RawBody :: string

text \<open>
  A route handler is a delegate: unbound (\<open>None\<close>) or bound to a function from the request
  to the response. Handlers act on the editor, so the function also takes and returns the
  state \<open>'w\<close> of everything outside the router. The route table answers \<^verbatim>\<open>Routes.Find\<close>;
  \<^verbatim>\<open>Routes.Add\<close> stores the handler for the key and for every spelling of it that differs in
  case only.
\<close>

type_synonym 'w FRESTRouteHandler = "(FRESTRequest \<Rightarrow> 'w \<Rightarrow> FRESTResponse \<times> 'w) option"

type_synonym 'w route_table = "string \<Rightarrow> 'w FRESTRouteHandler option"

definition Ok :: "FJsonObject option \<Rightarrow> FRESTResponse" where
  "Ok Json = \<lparr>StatusCode = 200, ResponseJson = Json, RawBody = []\<rparr>"

definition Error :: "int \<Rightarrow> string \<Rightarrow> string \<Rightarrow> FRESTResponse" where
  "Error Code ErrorCode Message =
     \<lparr>StatusCode = Code,
      ResponseJson =
        Some (SetStringField
               (SetStringField (SetBoolField [] ''success'' False) ''error'' ErrorCode)
               ''message'' Message),
      RawBody = []\<rparr>"

definition NotFound :: "string \<Rightarrow> FRESTResponse" where
  "NotFound Message = Error 404 ''NOT_FOUND'' Message"

definition BadRequest :: "string \<Rightarrow> FRESTResponse" where
  "BadRequest Message = Error 400 ''BAD_REQUEST'' Message"

definition ServerError :: "string \<Rightarrow> FRESTResponse" where
  "ServerError Message = Error 500 ''SERVER_ERROR'' Message"

fun MethodString :: "ERESTMethod \<Rightarrow> string" where
  "MethodString GET = ''GET''"
| "MethodString POST = ''POST''"
| "MethodString PUT = ''PUT''"
| "MethodString DELETE = ''DELETE''"

text \<open>The route key \<^verbatim>\<open>FString::Printf("%s:%s", MethodString, Path)\<close>.\<close>

definition RouteKey :: "ERESTMethod \<Rightarrow> string \<Rightarrow> string" where
  "RouteKey m p = MethodString m @ '':'' @ p"

definition RegisterRoute ::
  "'w route_table \<Rightarrow> ERESTMethod \<Rightarrow> string \<Rightarrow> 'w FRESTRouteHandler \<Rightarrow> 'w route_table" where
  "RegisterRoute Routes m p Handler =
     (\<lambda>Key. if SameName Key (RouteKey m p) then Some Handler else Routes Key)"

definition DispatchInternal ::
  "'w route_table \<Rightarrow> FRESTRequest \<Rightarrow> 'w \<Rightarrow> FRESTResponse \<times> 'w" where
  "DispatchInternal Routes Request w =
     (let Key = RouteKey (Method Request) (Path Request) in
      case Routes Key of
        None \<Rightarrow> (NotFound (''Route not found: '' @ Key), w)
      | Some Handler \<Rightarrow>
          (case Handler of
             None \<Rightarrow> (ServerError ''Route handler not bound'', w)
           | Some h \<Rightarrow> h Request w))"

text \<open>
  \<^verbatim>\<open>HandleRequest\<close> between \<^verbatim>\<open>ParseRequest\<close> and \<^verbatim>\<open>BuildResponse\<close>: the response the public
  entry point computes for the parsed request.
\<close>

definition HandleRequest_Response ::
  "'w route_table \<Rightarrow> FRESTRequest \<Rightarrow> 'w \<Rightarrow> FRESTResponse \<times> 'w" where
  "HandleRequest_Response Routes ParsedRequest w =
     (let Key = RouteKey (Method ParsedRequest) (Path ParsedRequest) in
      case Routes Key of
        Some Handler \<Rightarrow>
          (case Handler of
             Some h \<Rightarrow> h ParsedRequest w
           | None \<Rightarrow> (ServerError ''Route handler not bound'', w))
      | None \<Rightarrow> (NotFound (''No handler for '' @ Key), w))"

section \<open>The batch endpoint: \<^verbatim>\<open>HandleBatch\<close>\<close>

text \<open>The method of a step, chosen from the upper-cased \<^verbatim>\<open>method\<close> field.\<close>

definition ParseMethod :: "string \<Rightarrow> ERESTMethod" where
  "ParseMethod MethodStr =
     (if MethodStr = ''POST'' then POST
      else if MethodStr = ''PUT'' then PUT
      else if MethodStr = ''DELETE'' then DELETE
      else GET)"

text \<open>The option \<^verbatim>\<open>bStopOnError\<close>, true unless \<^verbatim>\<open>options.stop_on_error\<close> says otherwise.\<close>

definition StopOnError :: "platform \<Rightarrow> FJsonObject \<Rightarrow> bool" where
  "StopOnError E RequestBody =
     (if HasField RequestBody ''options''
      then (case GetObjectField RequestBody ''options'' of
              None \<Rightarrow> True
            | Some Options \<Rightarrow>
                if HasField Options ''stop_on_error''
                then GetBoolField E Options ''stop_on_error'' else True)
      else True)"

text \<open>
  The result recorded for an array element for which \<^verbatim>\<open>AsObject\<close> yields a null pointer.
\<close>

definition ErrorResult :: "nat \<Rightarrow> FJsonObject" where
  "ErrorResult Index =
     SetStringField
       (SetBoolField (SetNumberField [] ''index'' (real Index)) ''success'' False)
       ''error'' ''Invalid request object''"

text \<open>
  The request built for a step object, its body resolved against the results so far. The
  locals \<^verbatim>\<open>Path\<close> and \<^verbatim>\<open>Body\<close> of the source are written in lower case here; the capitalised
  names are the fields of the request.
\<close>

definition InternalRequest ::
  "platform \<Rightarrow> FJsonObject \<Rightarrow> FJsonObject option list \<Rightarrow> FRESTRequest" where
  "InternalRequest E ReqObj Results =
     (let MethodStr = ToUpper (GetStringField E ReqObj ''method'');
          path = GetStringField E ReqObj ''path'';
          body = (if HasField ReqObj ''body''
                  then ResolveVariableReferences E (GetObjectField ReqObj ''body'') Results
                  else None)
      in \<lparr>Path = path, Method = ParseMethod MethodStr, QueryParams = [], PathParams = [],
          Body = [], JsonBody = body\<rparr>)"

definition IsSuccess :: "FRESTResponse \<Rightarrow> bool" where
  "IsSuccess Response \<longleftrightarrow> 200 \<le> StatusCode Response \<and> StatusCode Response < 300"

text \<open>The result recorded for a dispatched step.\<close>

definition StepResult :: "platform \<Rightarrow> nat \<Rightarrow> FJsonObject \<Rightarrow> FRESTResponse \<Rightarrow> FJsonObject" where
  "StepResult E Index ReqObj InternalResponse =
     (let MethodStr = ToUpper (GetStringField E ReqObj ''method'');
          path = GetStringField E ReqObj ''path'';
          Result = SetNumberField [] ''index'' (real Index);
          Result = SetStringField Result ''method'' MethodStr;
          Result = SetStringField Result ''path'' path;
          Result = SetNumberField Result ''status'' (real_of_int (StatusCode InternalResponse));
          Result = SetBoolField Result ''success'' (IsSuccess InternalResponse)
      in case ResponseJson InternalResponse of
           None \<Rightarrow> Result
         | Some Json \<Rightarrow> SetObjectField Result ''data'' Json)"

text \<open>
  The loop over the \<^verbatim>\<open>requests\<close> array. The list is the part of the array from \<open>Index\<close> on;
  the triple holds \<^verbatim>\<open>Results\<close>, \<^verbatim>\<open>Completed\<close> and \<^verbatim>\<open>Failed\<close>. Returning without a recursive
  call is the \<^verbatim>\<open>break\<close>.
\<close>

fun HandleBatch_loop ::
  "platform \<Rightarrow> 'w route_table \<Rightarrow> bool \<Rightarrow> nat \<Rightarrow> json list \<Rightarrow>
   FJsonObject option list \<times> int \<times> int \<Rightarrow> 'w \<Rightarrow>
   (FJsonObject option list \<times> int \<times> int) \<times> 'w" where
  "HandleBatch_loop E Router bStopOnError Index [] acc w = (acc, w)"
| "HandleBatch_loop E Router bStopOnError Index (x # xs) (Results, Completed, Failed) w =
     (case AsObject x of
        None \<Rightarrow>
          if bStopOnError
          then ((Results @ [Some (ErrorResult Index)], Completed, Failed + 1), w)
          else HandleBatch_loop E Router bStopOnError (Index + 1) xs
                 (Results @ [Some (ErrorResult Index)], Completed, Failed + 1) w
      | Some ReqObj \<Rightarrow>
          (case DispatchInternal Router (InternalRequest E ReqObj Results) w of
             (InternalResponse, w') \<Rightarrow>
               let Results' = Results @ [Some (StepResult E Index ReqObj InternalResponse)] in
               if IsSuccess InternalResponse
               then HandleBatch_loop E Router bStopOnError (Index + 1) xs
                      (Results', Completed + 1, Failed) w'
               else if bStopOnError
               then ((Results', Completed, Failed + 1), w')
               else HandleBatch_loop E Router bStopOnError (Index + 1) xs
                      (Results', Completed, Failed + 1) w'))"

text \<open>The body of the batch response, built from what the loop leaves.\<close>

definition BatchResponse :: "FJsonObject option list \<Rightarrow> int \<Rightarrow> int \<Rightarrow> FJsonObject" where
  "BatchResponse Results Completed Failed =
     (let Response = SetBoolField [] ''success'' (Failed = 0);
          ResultsJsonArray = map (\<lambda>Result. case Result of None \<Rightarrow> JNull | Some r \<Rightarrow> JObject r) Results;
          Response = SetArrayField Response ''results'' ResultsJsonArray;
          Response = SetNumberField Response ''completed'' (real_of_int Completed);
          Response = SetNumberField Response ''failed'' (real_of_int Failed)
      in Response)"

text \<open>
  \<^verbatim>\<open>RouterRef\<close> is the pointer to the router that \<^verbatim>\<open>RegisterRoutes\<close> stores before it
  registers the route \<^verbatim>\<open>POST /batch\<close>; it is kept as the route table the pointer leads to.
  \<^verbatim>\<open>HandleBatch\<close> is private and is only reached through that route, so requests to the batch
  endpoint find \<open>RouterRef = Some Router\<close>.
\<close>

definition HandleBatch ::
  "platform \<Rightarrow> 'w route_table option \<Rightarrow> FRESTRequest \<Rightarrow> 'w \<Rightarrow> FRESTResponse \<times> 'w" where
  "HandleBatch E RouterRef Request w =
     (case RouterRef of
        None \<Rightarrow> (ServerError ''Router not available'', w)
      | Some Router \<Rightarrow>
          (case JsonBody Request of
             None \<Rightarrow> (BadRequest ''Missing required field: requests (array)'', w)
           | Some RequestBody \<Rightarrow>
               (case TryGetArrayField RequestBody ''requests'' of
                  None \<Rightarrow> (BadRequest ''Missing required field: requests (array)'', w)
                | Some RequestsArray \<Rightarrow>
                    (case HandleBatch_loop E Router (StopOnError E RequestBody) 0 RequestsArray
                            ([], 0, 0) w of
                       ((Results, Completed, Failed), w') \<Rightarrow>
                         (Ok (Some (BatchResponse Results Completed Failed)), w')))))"

section \<open>Example data\<close>

text \<open>
  The data the theorems below are exercised on: a platform whose conversions are constant,
  a handler that answers with a fixed response and appends the request it receives to the
  world, which is then the list of requests dispatched so far, and a route table with
  \<open>GET /a\<close>, answering 200 with the body \<open>{"id": "abc"}\<close>, and \<open>POST /b\<close>, answering 200
  without a body.
\<close>

definition example_platform :: platform where
  "example_platform =
     \<lparr>Printf_g = (\<lambda>x. ''0''), NumberAsString = (\<lambda>x. ''0''), StringToBool = (\<lambda>s. s = ''true''),
      AtoiOverflow = (\<lambda>s. 2147483647)\<rparr>"

definition recording_handler ::
  "FRESTResponse \<Rightarrow> FRESTRequest \<Rightarrow> FRESTRequest list \<Rightarrow> FRESTResponse \<times> FRESTRequest list" where
  "recording_handler Response Request seen = (Response, seen @ [Request])"

definition example_routes :: "FRESTRequest list route_table" where
  "example_routes =
     RegisterRoute
       (RegisterRoute (\<lambda>k. None) GET ''/a''
          (Some (recording_handler (Ok (Some [(''id'', JString ''abc'')])))))
       POST ''/b'' (Some (recording_handler (Ok None)))"

definition batch_request :: "FJsonObject \<Rightarrow> FRESTRequest" where
  "batch_request RequestBody =
     \<lparr>Path = ''/batch'', Method = POST, QueryParams = [], PathParams = [], Body = [],
      JsonBody = Some RequestBody\<rparr>"

definition step :: "string \<Rightarrow> string \<Rightarrow> json" where
  "step m p = JObject [(''method'', JString m), (''path'', JString p)]"

definition step_with_body :: "string \<Rightarrow> string \<Rightarrow> FJsonObject \<Rightarrow> json" where
  "step_with_body m p b = JObject [(''method'', JString m), (''path'', JString p), (''body'', JObject b)]"

section \<open>Unfolding rules\<close>

text \<open>
  The definitions that the evaluation of a concrete request, batch or reference unfolds.
\<close>

lemma SameName_refl [simp]: "SameName a a"
  by (simp add: SameName_def)

lemmas response_defs =
  NotFound_def BadRequest_def ServerError_def Error_def Ok_def
  SetBoolField_def SetStringField_def SetNumberField_def SetObjectField_def
  SetArrayField_def SameName_def ToUpper_def char_ToUpper_def

lemmas batch_defs =
  HandleBatch_def BatchResponse_def StopOnError_def InternalRequest_def StepResult_def
  ErrorResult_def IsSuccess_def ParseMethod_def DispatchInternal_def RouteKey_def
  RegisterRoute_def HasField_def TryGetField_def GetObjectField_def GetStringField_def
  GetBoolField_def TryGetArrayField_def SameName_def ToUpper_def char_ToUpper_def

lemmas resolve_defs =
  ResolveStringVariables_def ResolveMatch_def Atoi_def digit_value_def is_digit_def is_word_def
  is_path_char_def ExtractJsonPath_def ParseIntoArray_def StartsWith_def SetObjectFieldPtr_def

lemmas example_defs =
  example_platform_def recording_handler_def example_routes_def batch_request_def
  step_def step_with_body_def

section \<open>Properties of the path resolver\<close>

lemma spec_split_not_Nil: "spec_split d s \<noteq> []"
  by (induction s) (auto split: list.splits)

lemma ParseIntoArray_from_split:
  "ParseIntoArray_from d cur s =
     filter (\<lambda>p. p \<noteq> []) ((cur @ hd (spec_split d s)) # tl (spec_split d s))"
proof (induction s arbitrary: cur)
  case Nil
  show ?case by simp
next
  case (Cons c cs)
  show ?case
  proof (cases "c = d")
    case True
    then show ?thesis
      using spec_split_not_Nil [of d cs] Cons.IH [of "[]"]
      by (cases "spec_split d cs") auto
  next
    case False
    then show ?thesis
      using spec_split_not_Nil [of d cs] Cons.IH [of "cur @ [c]"]
      by (cases "spec_split d cs") auto
  qed
qed

text \<open>
  Cutting a path into parts is splitting it at the delimiter and dropping the empty pieces.
\<close>

lemma ParseIntoArray_split:
  "ParseIntoArray s d = filter (\<lambda>p. p \<noteq> []) (spec_split d s)"
  using spec_split_not_Nil [of d s]
  by (cases "spec_split d s") (simp_all add: ParseIntoArray_def ParseIntoArray_from_split)

lemma walk_by_not_object:
  "\<forall>obj. v \<noteq> JObject obj \<Longrightarrow> walk_by lookup v ks = None"
  by (cases ks; cases v) simp_all

lemma ExtractJsonPath_loop_null:
  "(case ExtractJsonPath_loop None ks of
      None \<Rightarrow> None
    | Some Current \<Rightarrow> (case Current of None \<Rightarrow> None | Some obj \<Rightarrow> f obj)) = None"
  by (cases ks) simp_all

lemma ExtractJsonPath_loop_empty_object:
  "(case ExtractJsonPath_loop (Some []) ks of
      None \<Rightarrow> None
    | Some Current \<Rightarrow>
        (case Current of
           None \<Rightarrow> None
         | Some obj' \<Rightarrow> if HasField obj' k then TryGetField obj' k else None)) = None"
  by (cases ks) (simp_all add: HasField_def)

lemma GetObjectField_not_object:
  "FindField obj p = Some v \<Longrightarrow> \<forall>obj'. v \<noteq> JObject obj' \<Longrightarrow> GetObjectField obj p = Some []"
  by (cases v) (simp_all add: GetObjectField_def)

lemma ExtractJsonPath_loop_walk:
  "(case ExtractJsonPath_loop (Some obj) ks of
      None \<Rightarrow> None
    | Some Current \<Rightarrow>
        (case Current of
           None \<Rightarrow> None
         | Some obj' \<Rightarrow> if HasField obj' k then TryGetField obj' k else None))
   = walk_by FindField (JObject obj) (ks @ [k])"
proof (induction ks arbitrary: obj)
  case Nil
  show ?case by (cases "FindField obj k") (simp_all add: HasField_def TryGetField_def)
next
  case (Cons p ps)
  show ?case
  proof (cases "FindField obj p")
    case None
    then show ?thesis by (simp add: HasField_def)
  next
    case (Some v)
    show ?thesis
    proof (cases "\<exists>obj'. v = JObject obj'")
      case False
      then have no: "\<forall>obj'. v \<noteq> JObject obj'" by simp
      from Some no show ?thesis
        by (simp add: HasField_def GetObjectField_not_object walk_by_not_object
              ExtractJsonPath_loop_empty_object)
    next
      case True
      then obtain obj' where v: "v = JObject obj'" by blast
      with Some Cons.IH [of obj'] show ?thesis
        by (simp add: HasField_def GetObjectField_def)
    qed
  qed
qed

lemma ExtractJsonPath_null: "ExtractJsonPath None path = None"
  by (cases "butlast (ParseIntoArray path CHR ''.'')")
     (simp_all add: ExtractJsonPath_def Let_def)

lemma ParseIntoArray_single:
  "p \<noteq> [] \<Longrightarrow> CHR ''.'' \<notin> set p \<Longrightarrow> ParseIntoArray p CHR ''.'' = [p]"
proof -
  have "CHR ''.'' \<notin> set p \<Longrightarrow> ParseIntoArray_from CHR ''.'' cur p = (if cur @ p = [] then [] else [cur @ p])" for cur
    by (induction p arbitrary: cur) auto
  from this [of "[]"] show "p \<noteq> [] \<Longrightarrow> CHR ''.'' \<notin> set p \<Longrightarrow> ?thesis"
    by (simp add: ParseIntoArray_def)
qed

text \<open>
  Claim C7, as amended. For every root object and every path, \<^verbatim>\<open>ExtractJsonPath\<close> cuts the
  path at the dots and discards the empty pieces; it walks every remaining piece but the
  last, requiring the current value to be an object that contains the piece as a field name,
  case ignored (a missing key or a value that is not an object yields not-found), and
  returns the value the last piece names, again case ignored, whatever its variant. A path
  without any non-empty piece yields not-found.
\<close>

theorem ExtractJsonPath_resolves_culled_path:
  "ExtractJsonPath (Some Root) path =
     walk_by FindField (JObject Root) (filter (\<lambda>p. p \<noteq> []) (spec_split CHR ''.'' path))"
proof (cases "ParseIntoArray path CHR ''.''" rule: rev_cases)
  case Nil
  then show ?thesis
    by (simp add: ExtractJsonPath_def ParseIntoArray_split [symmetric])
next
  case (snoc ks k)
  then show ?thesis
    using ExtractJsonPath_loop_walk [where obj = Root and ks = ks and k = k]
    by (simp add: ExtractJsonPath_def Let_def ParseIntoArray_split [symmetric]
          cong: option.case_cong if_cong)
qed

text \<open>
  The amended claim C7 at the two examples of the specification, at a path that ends in a
  dot, and at a path that spells a field name in capitals.
\<close>

theorem ExtractJsonPath_resolves_culled_path_witness:
  "ExtractJsonPath
     (Some [(''a'', JObject [(''b'', JObject [(''c'', JNumber 5)])])]) ''a.b.c'' = Some (JNumber 5)
   \<and> ExtractJsonPath (Some [(''a'', JObject [(''b'', JNumber 1)])]) ''a.x'' = None
   \<and> ExtractJsonPath (Some [(''a'', JObject [(''b'', JNumber 1)])]) ''a.b.'' = Some (JNumber 1)
   \<and> ExtractJsonPath (Some [(''id'', JString ''abc'')]) ''ID'' = Some (JString ''abc'')"
  using ExtractJsonPath_resolves_culled_path
          [where Root = "[(''a'', JObject [(''b'', JObject [(''c'', JNumber 5)])])]"
             and path = "''a.b.c''"]
        ExtractJsonPath_resolves_culled_path
          [where Root = "[(''a'', JObject [(''b'', JNumber 1)])]" and path = "''a.x''"]
        ExtractJsonPath_resolves_culled_path
          [where Root = "[(''a'', JObject [(''b'', JNumber 1)])]" and path = "''a.b.''"]
        ExtractJsonPath_resolves_culled_path
          [where Root = "[(''id'', JString ''abc'')]" and path = "''ID''"]
  by (simp add: SameName_def ToUpper_def char_ToUpper_def)

text \<open>
  Claim C7, as stated, fails at two kinds of path. Where the path has an empty piece: for
  the root \<open>{a: {b: 1}}\<close> and the path \<open>a..b\<close> the code returns \<open>1\<close>, while splitting at the
  dots gives the pieces \<open>a\<close>, the empty piece and \<open>b\<close>, and the object under \<open>a\<close> has no
  field with the empty name, so the resolver of the specification finds nothing. Where a
  piece differs from a field name in case: for the root \<open>{id: "abc"}\<close> and the path \<open>ID\<close>
  the code returns \<open>abc\<close>, while the object does not contain the key \<open>ID\<close>.
\<close>

theorem ExtractJsonPath_empty_piece_counterexample:
  "ExtractJsonPath (Some [(''a'', JObject [(''b'', JNumber 1)])]) ''a..b'' = Some (JNumber 1)
   \<and> spec_resolve (JObject [(''a'', JObject [(''b'', JNumber 1)])]) ''a..b'' = None
   \<and> ExtractJsonPath (Some [(''id'', JString ''abc'')]) ''ID'' = Some (JString ''abc'')
   \<and> spec_resolve (JObject [(''id'', JString ''abc'')]) ''ID'' = None"
  by (simp add: ExtractJsonPath_def ParseIntoArray_def HasField_def TryGetField_def
        GetObjectField_def spec_resolve_def SameName_def ToUpper_def char_ToUpper_def)

section \<open>Properties of the router\<close>

lemma MethodString_no_colon: "CHR '':'' \<notin> set (MethodString m)"
  by (cases m) simp_all

lemma append_colon_inject:
  assumes "a @ CHR '':'' # p = b @ CHR '':'' # q"
    and "CHR '':'' \<notin> set a" and "CHR '':'' \<notin> set b"
  shows "a = b \<and> p = q"
  using assms
proof (induction a arbitrary: b)
  case Nil
  then show ?case by (cases b) auto
next
  case (Cons x xs)
  then show ?case by (cases b) auto
qed

lemma MethodString_inject: "MethodString m = MethodString m' \<Longrightarrow> m = m'"
  by (cases m; cases m') simp_all

text \<open>
  Method names contain no colon, so the route key determines the method and the path:
  two different pairs never share a key. (The table itself takes keys that differ in case
  only for the same key.)
\<close>

lemma RouteKey_inject:
  "RouteKey m p = RouteKey m' p' \<Longrightarrow> m = m' \<and> p = p'"
  using append_colon_inject [of "MethodString m" p "MethodString m'" p']
    MethodString_no_colon [of m] MethodString_no_colon [of m'] MethodString_inject [of m m']
  by (simp add: RouteKey_def)

lemma RegisterRoute_other:
  "\<not> SameName (RouteKey m' p') (RouteKey m p) \<Longrightarrow>
   RegisterRoute Routes m p Handler (RouteKey m' p') = Routes (RouteKey m' p')"
  by (simp add: RegisterRoute_def)

lemma RegisterRoute_same:
  "RegisterRoute Routes m p Handler (RouteKey m p) = Some Handler"
  by (simp add: RegisterRoute_def SameName_def)

text \<open>
  Claim C3, as amended. For every method and path whose route key is not in the route table,
  \<^verbatim>\<open>DispatchInternal\<close> answers with status 404 and the body
  \<open>{success: false, error: "NOT_FOUND", message: "Route not found: METHOD:path"}\<close>: the message
  ends in the route key, the method and the path joined by a colon. The world is untouched.
\<close>

theorem DispatchInternal_route_absent:
  assumes "Routes (RouteKey (Method Request) (Path Request)) = None"
  shows "DispatchInternal Routes Request w =
     (\<lparr>StatusCode = 404,
       ResponseJson = Some [(''success'', JBool False), (''error'', JString ''NOT_FOUND''),
         (''message'', JString (''Route not found: '' @ MethodString (Method Request)
                                   @ '':'' @ Path Request))],
       RawBody = []\<rparr>, w)"
  using assms by (simp add: DispatchInternal_def RouteKey_def response_defs)

text \<open>
  The amended claim C3 for \<open>GET /x\<close> on the empty route table.
\<close>

theorem DispatchInternal_route_absent_witness:
  "DispatchInternal (\<lambda>k. None)
     \<lparr>Path = ''/x'', Method = GET, QueryParams = [], PathParams = [], Body = [], JsonBody = None\<rparr> ()
   = (\<lparr>StatusCode = 404,
       ResponseJson = Some [(''success'', JBool False), (''error'', JString ''NOT_FOUND''),
         (''message'', JString ''Route not found: GET:/x'')],
       RawBody = []\<rparr>, ())"
  using DispatchInternal_route_absent
    [where Routes = "\<lambda>k. None" and w = "()"
       and Request = "\<lparr>Path = ''/x'', Method = GET, QueryParams = [], PathParams = [],
                        Body = [], JsonBody = None\<rparr>"]
  by simp

text \<open>
  Claim C3, as stated, fails: for \<open>GET /x\<close> on the empty route table the body is not the
  one with the message \<open>Route not found: GET /x\<close>, method and path separated by a space.
\<close>

theorem DispatchInternal_message_counterexample:
  "(\<lambda>k. None) (RouteKey GET ''/x'') = None
   \<and> ResponseJson (fst (DispatchInternal (\<lambda>k. None)
        \<lparr>Path = ''/x'', Method = GET, QueryParams = [], PathParams = [], Body = [],
         JsonBody = None\<rparr> ()))
     \<noteq> Some [(''success'', JBool False), (''error'', JString ''NOT_FOUND''),
              (''message'', JString ''Route not found: GET /x'')]"
  by (simp add: DispatchInternal_def RouteKey_def response_defs)

text \<open>
  Claim C2, as amended. Where the route table has an entry for the request, \<^verbatim>\<open>DispatchInternal\<close>
  and the public path compute the same response and the same effect: the 500 response
  \<open>Route handler not bound\<close> for an unbound handler, the handler's own response otherwise.
  Where the table has no entry, both answer 404 with the error code \<open>NOT_FOUND\<close>, but with
  different messages: \<open>Route not found: KEY\<close> from \<^verbatim>\<open>DispatchInternal\<close> and
  \<open>No handler for KEY\<close> from the public path.
\<close>

theorem DispatchInternal_versus_HandleRequest:
  "(Routes (RouteKey (Method Request) (Path Request)) \<noteq> None \<longrightarrow>
      DispatchInternal Routes Request w = HandleRequest_Response Routes Request w)
   \<and> (Routes (RouteKey (Method Request) (Path Request)) = None \<longrightarrow>
      DispatchInternal Routes Request w =
        (Error 404 ''NOT_FOUND''
           (''Route not found: '' @ RouteKey (Method Request) (Path Request)), w)
      \<and> HandleRequest_Response Routes Request w =
        (Error 404 ''NOT_FOUND''
           (''No handler for '' @ RouteKey (Method Request) (Path Request)), w))"
  by (auto simp: DispatchInternal_def HandleRequest_Response_def NotFound_def
        split: option.splits)

text \<open>
  The amended claim C2 at a registered route and at a missing one.
\<close>

theorem DispatchInternal_versus_HandleRequest_witness:
  "DispatchInternal (RegisterRoute (\<lambda>k. None) GET ''/ping'' (Some (\<lambda>r w. (Ok None, Suc w))))
     \<lparr>Path = ''/ping'', Method = GET, QueryParams = [], PathParams = [], Body = [],
      JsonBody = None\<rparr> (0::nat)
   = HandleRequest_Response
       (RegisterRoute (\<lambda>k. None) GET ''/ping'' (Some (\<lambda>r w. (Ok None, Suc w))))
       \<lparr>Path = ''/ping'', Method = GET, QueryParams = [], PathParams = [], Body = [],
        JsonBody = None\<rparr> 0
   \<and> DispatchInternal (\<lambda>k. None)
       \<lparr>Path = ''/x'', Method = GET, QueryParams = [], PathParams = [], Body = [],
        JsonBody = None\<rparr> (0::nat)
     = (Error 404 ''NOT_FOUND'' ''Route not found: GET:/x'', 0)
   \<and> HandleRequest_Response (\<lambda>k. None)
       \<lparr>Path = ''/x'', Method = GET, QueryParams = [], PathParams = [], Body = [],
        JsonBody = None\<rparr> (0::nat)
     = (Error 404 ''NOT_FOUND'' ''No handler for GET:/x'', 0)"
  using DispatchInternal_versus_HandleRequest
    [where Routes = "RegisterRoute (\<lambda>k. None) GET ''/ping'' (Some (\<lambda>r w. (Ok None, Suc w)))"
       and w = "0::nat"
       and Request = "\<lparr>Path = ''/ping'', Method = GET, QueryParams = [], PathParams = [],
                        Body = [], JsonBody = None\<rparr>"]
    DispatchInternal_versus_HandleRequest
    [where Routes = "\<lambda>k. None" and w = "0::nat"
       and Request = "\<lparr>Path = ''/x'', Method = GET, QueryParams = [], PathParams = [],
                        Body = [], JsonBody = None\<rparr>"]
  by (simp add: RegisterRoute_def RouteKey_def SameName_def ToUpper_def char_ToUpper_def)

text \<open>
  Claim C2, as stated, fails: for \<open>GET /x\<close> on the empty route table the two paths
  return different responses.
\<close>

theorem DispatchInternal_differs_counterexample:
  "DispatchInternal (\<lambda>k. None)
     \<lparr>Path = ''/x'', Method = GET, QueryParams = [], PathParams = [], Body = [], JsonBody = None\<rparr> ()
   \<noteq> HandleRequest_Response (\<lambda>k. None)
     \<lparr>Path = ''/x'', Method = GET, QueryParams = [], PathParams = [], Body = [], JsonBody = None\<rparr> ()"
  by (simp add: DispatchInternal_def HandleRequest_Response_def RouteKey_def response_defs)

section \<open>Properties of variable substitution\<close>

text \<open>
  What the loop of \<^verbatim>\<open>ResolveStringVariables\<close> decides for each match: a match whose index is
  out of range, that has no dotted path, or whose path resolves to anything but a string or
  a number causes no replacement, and a string none of whose matches causes a replacement is
  returned as it is.
\<close>

lemma ResolveMatch_leaves_result:
  assumes "\<not> Substitutes E PreviousResults m"
  shows "ResolveMatch E PreviousResults m Result = Result"
proof -
  obtain FullMatch Group1 JsonPath where m: "m = (FullMatch, Group1, JsonPath)"
    by (cases m)
  show ?thesis
  proof (cases "0 \<le> Atoi E Group1 \<and> Atoi E Group1 < int (length PreviousResults) \<and> JsonPath \<noteq> []")
    case False
    then show ?thesis by (auto simp: m ResolveMatch_def Let_def)
  next
    case True
    with assms m
    have "(case ExtractJsonPath (PreviousResults ! nat (Atoi E Group1)) JsonPath of
             Some (JString s) \<Rightarrow> False | Some (JNumber x) \<Rightarrow> False | _ \<Rightarrow> True)"
      by (auto simp: Substitutes_def split: option.splits json.splits)
    with True show ?thesis
      by (auto simp: m ResolveMatch_def Let_def split: option.splits json.splits)
  qed
qed

lemma fold_ResolveMatch_unchanged:
  "\<forall>m \<in> set ms. \<not> Substitutes E PreviousResults m \<Longrightarrow>
   fold (ResolveMatch E PreviousResults) ms Result = Result"
  by (induction ms arbitrary: Result) (simp_all add: ResolveMatch_leaves_result)

lemma ResolveStringVariables_unchanged:
  "\<forall>m \<in> set (FindMatches Value). \<not> Substitutes E PreviousResults m \<Longrightarrow>
   ResolveStringVariables E Value PreviousResults = Value"
  by (simp add: ResolveStringVariables_def fold_ResolveMatch_unchanged)

lemma ResolveStringVariables_changed:
  "ResolveStringVariables E Value PreviousResults \<noteq> Value \<Longrightarrow>
   \<exists>m \<in> set (FindMatches Value). Substitutes E PreviousResults m"
  using ResolveStringVariables_unchanged by blast

text \<open>
  Claim C4 at an input where the code departs from it. The string holds two references to
  step 0, whose result record carries the data \<open>{"id": "abc"}\<close>: \<open>$0.data.id\<close> resolves to a
  string, \<open>$0.data.idx\<close> resolves to nothing and should stay as it is. The replacement for
  the first match rewrites every occurrence of its text in the string, also the one the
  second match begins with, and the result is \<open>abc abcx\<close>.
\<close>

theorem unresolved_token_rewritten_by_other_token:
  "FindMatches ''$0.data.id $0.data.idx''
     = [(''$0.data.id'', ''0'', ''data.id''), (''$0.data.idx'', ''0'', ''data.idx'')]
   \<and> ExtractJsonPath
       (Some [(''index'', JNumber 0), (''method'', JString ''GET''), (''path'', JString ''/a''),
              (''status'', JNumber 200), (''success'', JBool True),
              (''data'', JObject [(''id'', JString ''abc'')])]) ''data.idx'' = None
   \<and> ResolveStringVariables E ''$0.data.id $0.data.idx''
       [Some [(''index'', JNumber 0), (''method'', JString ''GET''), (''path'', JString ''/a''),
              (''status'', JNumber 200), (''success'', JBool True),
              (''data'', JObject [(''id'', JString ''abc'')])]]
     = ''abc abcx''"
  by (simp add: batch_defs resolve_defs Let_def)

section \<open>Properties of the batch endpoint\<close>

subsection \<open>The options and the loop\<close>

text \<open>
  \<^verbatim>\<open>stop_on_error\<close> is true when the request has no options, and is the flag given otherwise.
\<close>

lemma StopOnError_default:
  "\<not> HasField RequestBody ''options'' \<Longrightarrow> StopOnError E RequestBody"
  by (simp add: StopOnError_def)

lemma StopOnError_option:
  "FindField RequestBody ''options'' = Some (JObject Options) \<Longrightarrow>
   FindField Options ''stop_on_error'' = Some (JBool flag) \<Longrightarrow>
   StopOnError E RequestBody = flag"
  by (simp add: StopOnError_def HasField_def GetObjectField_def GetBoolField_def)

text \<open>
  Every iteration of the loop appends one result and increments one counter; without
  \<^verbatim>\<open>stop_on_error\<close> every element of the array is visited; results already recorded stay in
  place.
\<close>

lemma HandleBatch_loop_counts:
  "HandleBatch_loop E Router stop i xs (Rs, C, F) w = ((Rs', C', F'), w') \<Longrightarrow>
   C + F = int (length Rs) \<Longrightarrow> C' + F' = int (length Rs')"
proof (induction xs arbitrary: i Rs C F w)
  case Nil
  then show ?case by simp
next
  case (Cons x xs)
  show ?case
  proof (cases "AsObject x")
    case None
    show ?thesis
    proof (cases stop)
      case True
      with None Cons.prems show ?thesis by auto
    next
      case False
      with None Cons.prems
      have "HandleBatch_loop E Router stop (i + 1) xs
              (Rs @ [Some (ErrorResult i)], C, F + 1) w = ((Rs', C', F'), w')"
        by simp
      from Cons.IH [OF this] Cons.prems(2) show ?thesis by simp
    qed
  next
    case (Some ReqObj)
    obtain resp w1 where d: "DispatchInternal Router (InternalRequest E ReqObj Rs) w = (resp, w1)"
      by (cases "DispatchInternal Router (InternalRequest E ReqObj Rs) w")
    show ?thesis
    proof (cases "IsSuccess resp")
      case True
      with Some d Cons.prems
      have "HandleBatch_loop E Router stop (i + 1) xs
              (Rs @ [Some (StepResult E i ReqObj resp)], C + 1, F) w1 = ((Rs', C', F'), w')"
        by simp
      from Cons.IH [OF this] Cons.prems(2) show ?thesis by simp
    next
      case False
      note failed = this
      show ?thesis
      proof (cases stop)
        case True
        with Some d failed Cons.prems show ?thesis by auto
      next
        case False
        with Some d failed Cons.prems
        have "HandleBatch_loop E Router stop (i + 1) xs
                (Rs @ [Some (StepResult E i ReqObj resp)], C, F + 1) w1 = ((Rs', C', F'), w')"
          by simp
        from Cons.IH [OF this] Cons.prems(2) show ?thesis by simp
      qed
    qed
  qed
qed

lemma HandleBatch_loop_all_attempted:
  "\<not> stop \<Longrightarrow>
   HandleBatch_loop E Router stop i xs (Rs, C, F) w = ((Rs', C', F'), w') \<Longrightarrow>
   length Rs' = length Rs + length xs"
proof (induction xs arbitrary: i Rs C F w)
  case Nil
  then show ?case by simp
next
  case (Cons x xs)
  show ?case
  proof (cases "AsObject x")
    case None
    with Cons.prems
    have "HandleBatch_loop E Router stop (i + 1) xs
            (Rs @ [Some (ErrorResult i)], C, F + 1) w = ((Rs', C', F'), w')"
      by simp
    from Cons.IH [OF Cons.prems(1) this] show ?thesis by simp
  next
    case (Some ReqObj)
    obtain resp w1 where d: "DispatchInternal Router (InternalRequest E ReqObj Rs) w = (resp, w1)"
      by (cases "DispatchInternal Router (InternalRequest E ReqObj Rs) w")
    show ?thesis
    proof (cases "IsSuccess resp")
      case True
      with Some d Cons.prems
      have "HandleBatch_loop E Router stop (i + 1) xs
              (Rs @ [Some (StepResult E i ReqObj resp)], C + 1, F) w1 = ((Rs', C', F'), w')"
        by simp
      from Cons.IH [OF Cons.prems(1) this] show ?thesis by simp
    next
      case False
      with Some d Cons.prems
      have "HandleBatch_loop E Router stop (i + 1) xs
              (Rs @ [Some (StepResult E i ReqObj resp)], C, F + 1) w1 = ((Rs', C', F'), w')"
        by simp
      from Cons.IH [OF Cons.prems(1) this] show ?thesis by simp
    qed
  qed
qed

lemma HandleBatch_loop_extends:
  "\<exists>rest. fst (fst (HandleBatch_loop E Router stop i xs (Rs, C, F) w)) = Rs @ rest"
proof (induction xs arbitrary: i Rs C F w)
  case Nil
  show ?case by simp
next
  case (Cons x xs)
  show ?case
  proof (cases "AsObject x")
    case None
    then show ?thesis
      using Cons.IH [of "i + 1" "Rs @ [Some (ErrorResult i)]" C "F + 1" w] by auto
  next
    case (Some ReqObj)
    obtain resp w1 where d: "DispatchInternal Router (InternalRequest E ReqObj Rs) w = (resp, w1)"
      by (cases "DispatchInternal Router (InternalRequest E ReqObj Rs) w")
    show ?thesis
      using Some d
        Cons.IH [of "i + 1" "Rs @ [Some (StepResult E i ReqObj resp)]" "C + 1" F w1]
        Cons.IH [of "i + 1" "Rs @ [Some (StepResult E i ReqObj resp)]" C "F + 1" w1]
      by (auto simp: Let_def)
  qed
qed

lemma HandleBatch_run:
  assumes "JsonBody Request = Some b" and "TryGetArrayField b ''requests'' = Some steps"
    and "HandleBatch_loop E Router (StopOnError E b) 0 steps ([], 0, 0) w = ((Rs, C, F), w')"
  shows "HandleBatch E (Some Router) Request w =
     (\<lparr>StatusCode = 200,
       ResponseJson = Some [(''success'', JBool (F = 0)),
         (''results'', JArray (map (\<lambda>Result. case Result of None \<Rightarrow> JNull | Some r \<Rightarrow> JObject r) Rs)),
         (''completed'', JNumber (real_of_int C)), (''failed'', JNumber (real_of_int F))],
       RawBody = []\<rparr>, w')"
  using assms by (simp add: HandleBatch_def BatchResponse_def response_defs)

lemma HandleBatch_without_router:
  "HandleBatch E None Request w = (ServerError ''Router not available'', w)"
  by (simp add: HandleBatch_def)

subsection \<open>Missing requests, status of the envelope, counters\<close>

text \<open>
  Claim C9. If the request has no JSON body, or the body has no field \<open>requests\<close> holding an
  array, \<^verbatim>\<open>HandleBatch\<close> answers with status 400 and the body
  \<open>{success: false, error: "BAD_REQUEST", message: "Missing required field: requests (array)"}\<close>;
  nothing is dispatched: the answer does not depend on the router and the world is returned
  as it was. (A request body that is not a JSON object is not attached by the router, so the
  handler sees it as absent.)
\<close>

theorem HandleBatch_missing_requests:
  assumes "(case JsonBody Request of None \<Rightarrow> None
            | Some b \<Rightarrow> TryGetArrayField b ''requests'') = None"
  shows "HandleBatch E (Some Router) Request w =
     (\<lparr>StatusCode = 400,
       ResponseJson = Some [(''success'', JBool False), (''error'', JString ''BAD_REQUEST''),
         (''message'', JString ''Missing required field: requests (array)'')],
       RawBody = []\<rparr>, w)"
  using assms by (auto simp: HandleBatch_def response_defs split: option.splits)

text \<open>
  Claim C9 for a request without a body and for a body whose \<open>requests\<close> field is a string.
\<close>

theorem HandleBatch_missing_requests_witness:
  "HandleBatch example_platform (Some example_routes)
     \<lparr>Path = ''/batch'', Method = POST, QueryParams = [], PathParams = [], Body = [],
      JsonBody = None\<rparr> []
   = (\<lparr>StatusCode = 400,
       ResponseJson = Some [(''success'', JBool False), (''error'', JString ''BAD_REQUEST''),
         (''message'', JString ''Missing required field: requests (array)'')],
       RawBody = []\<rparr>, [])
   \<and> HandleBatch example_platform (Some example_routes)
       (batch_request [(''requests'', JString ''GET /a'')]) []
   = (\<lparr>StatusCode = 400,
       ResponseJson = Some [(''success'', JBool False), (''error'', JString ''BAD_REQUEST''),
         (''message'', JString ''Missing required field: requests (array)'')],
       RawBody = []\<rparr>, [])"
proof -
  let ?q1 = "\<lparr>Path = ''/batch'', Method = POST, QueryParams = [], PathParams = [], Body = [],
              JsonBody = None\<rparr>"
  let ?q2 = "batch_request [(''requests'', JString ''GET /a'')]"
  have h1: "(case JsonBody ?q1 of None \<Rightarrow> None | Some b \<Rightarrow> TryGetArrayField b ''requests'') = None"
    by simp
  have h2: "(case JsonBody ?q2 of None \<Rightarrow> None | Some b \<Rightarrow> TryGetArrayField b ''requests'') = None"
    by (simp add: batch_request_def TryGetArrayField_def)
  show ?thesis
    using HandleBatch_missing_requests [OF h1, of example_platform example_routes "[]"]
      HandleBatch_missing_requests [OF h2, of example_platform example_routes "[]"]
    by simp
qed

text \<open>
  Claim C8. Whenever the body of the batch request holds a \<open>requests\<close> array, the response of
  the batch endpoint has status 200, whatever the steps do.
\<close>

theorem HandleBatch_status_200:
  assumes "JsonBody Request = Some b" and "TryGetArrayField b ''requests'' = Some steps"
  shows "StatusCode (fst (HandleBatch E (Some Router) Request w)) = 200"
proof -
  obtain acc w' where
    "HandleBatch_loop E Router (StopOnError E b) 0 steps ([], 0, 0) w = (acc, w')"
    by (cases "HandleBatch_loop E Router (StopOnError E b) 0 steps ([], 0, 0) w")
  moreover obtain Rs C F where "acc = (Rs, C, F)"
    by (cases acc)
  ultimately have
    run: "HandleBatch_loop E Router (StopOnError E b) 0 steps ([], 0, 0) w = ((Rs, C, F), w')"
    by simp
  from HandleBatch_run [OF assms run] show ?thesis by simp
qed

text \<open>
  Claim C8 for the empty array, and for a batch whose two steps both fail (a missing route
  and an element that is not an object).
\<close>

theorem HandleBatch_status_200_witness:
  "StatusCode (fst (HandleBatch example_platform (Some example_routes)
      (batch_request [(''requests'', JArray [])]) [])) = 200
   \<and> StatusCode (fst (HandleBatch example_platform (Some example_routes)
      (batch_request
         [(''requests'', JArray [step ''GET'' ''/missing'', JNumber 7]),
          (''options'', JObject [(''stop_on_error'', JBool False)])]) [])) = 200"
proof -
  let ?b1 = "[(''requests'', JArray [])]"
  let ?b2 = "[(''requests'', JArray [step ''GET'' ''/missing'', JNumber 7]),
              (''options'', JObject [(''stop_on_error'', JBool False)])]"
  have a1: "JsonBody (batch_request ?b1) = Some ?b1"
    and a2: "TryGetArrayField ?b1 ''requests'' = Some []"
    by (simp_all add: batch_request_def TryGetArrayField_def)
  have b1: "JsonBody (batch_request ?b2) = Some ?b2"
    and b2: "TryGetArrayField ?b2 ''requests'' = Some [step ''GET'' ''/missing'', JNumber 7]"
    by (simp_all add: batch_request_def TryGetArrayField_def)
  show ?thesis
    using HandleBatch_status_200 [OF a1 a2, of example_platform example_routes "[]"]
      HandleBatch_status_200 [OF b1 b2, of example_platform example_routes "[]"]
    by simp
qed

text \<open>
  Claim C6. For every batch run the response carries \<open>success = (failed = 0)\<close>, and
  \<open>completed + failed\<close> is the number of results returned; when \<^verbatim>\<open>stop_on_error\<close> is false it is
  also the number of steps in the input array.
\<close>

theorem HandleBatch_counts:
  assumes "JsonBody Request = Some b" and "TryGetArrayField b ''requests'' = Some steps"
  shows "\<exists>Results Completed Failed.
     ResponseJson (fst (HandleBatch E (Some Router) Request w)) =
       Some [(''success'', JBool (Failed = 0)),
         (''results'', JArray (map (\<lambda>Result. case Result of None \<Rightarrow> JNull | Some r \<Rightarrow> JObject r) Results)),
         (''completed'', JNumber (real_of_int Completed)),
         (''failed'', JNumber (real_of_int Failed))]
     \<and> Completed + Failed = int (length Results)
     \<and> (\<not> StopOnError E b \<longrightarrow> Completed + Failed = int (length steps))"
proof -
  obtain acc w' where
    "HandleBatch_loop E Router (StopOnError E b) 0 steps ([], 0, 0) w = (acc, w')"
    by (cases "HandleBatch_loop E Router (StopOnError E b) 0 steps ([], 0, 0) w")
  moreover obtain Rs C F where "acc = (Rs, C, F)"
    by (cases acc)
  ultimately have
    run: "HandleBatch_loop E Router (StopOnError E b) 0 steps ([], 0, 0) w = ((Rs, C, F), w')"
    by simp
  have sum: "C + F = int (length Rs)"
    using HandleBatch_loop_counts [OF run] by simp
  have "\<not> StopOnError E b \<Longrightarrow> length Rs = length steps"
    using HandleBatch_loop_all_attempted [OF _ run] by simp
  with sum HandleBatch_run [OF assms run] show ?thesis
    by (intro exI [of _ Rs] exI [of _ C] exI [of _ F]) simp
qed

text \<open>
  Claim C6 for three steps, the second of which fails, with \<^verbatim>\<open>stop_on_error\<close> false.
\<close>

theorem HandleBatch_counts_witness:
  "\<exists>Results Completed Failed.
     ResponseJson (fst (HandleBatch example_platform (Some example_routes)
         (batch_request
            [(''requests'', JArray [step ''GET'' ''/a'', step ''GET'' ''/missing'', step ''POST'' ''/b'']),
             (''options'', JObject [(''stop_on_error'', JBool False)])])
         []))
     = Some [(''success'', JBool (Failed = 0)),
         (''results'', JArray (map (\<lambda>Result. case Result of None \<Rightarrow> JNull | Some r \<Rightarrow> JObject r) Results)),
         (''completed'', JNumber (real_of_int Completed)),
         (''failed'', JNumber (real_of_int Failed))]
     \<and> Completed + Failed = int (length Results)
     \<and> Completed + Failed = 3"
proof -
  let ?steps = "[step ''GET'' ''/a'', step ''GET'' ''/missing'', step ''POST'' ''/b'']"
  let ?b = "[(''requests'', JArray ?steps),
             (''options'', JObject [(''stop_on_error'', JBool False)])]"
  have h1: "JsonBody (batch_request ?b) = Some ?b"
    by (simp add: batch_request_def)
  have h2: "TryGetArrayField ?b ''requests'' = Some ?steps"
    by (simp add: TryGetArrayField_def)
  have h3: "\<not> StopOnError example_platform ?b"
    by (simp add: StopOnError_def HasField_def GetObjectField_def GetBoolField_def
          SameName_def ToUpper_def char_ToUpper_def)
  show ?thesis
    using HandleBatch_counts [OF h1 h2, of example_platform example_routes "[]"] h3
    by simp
qed

subsection \<open>Stopping at the first failure\<close>

text \<open>
  Claim C5. For a batch of three steps with \<^verbatim>\<open>stop_on_error\<close> true, where the step at index 0
  is dispatched and answered with a 2xx status and the step at index 1 is dispatched and
  answered with another status, the batch response holds exactly the results for index 0
  and index 1, in this order, with \<open>completed = 1\<close>, \<open>failed = 1\<close> and \<open>success = false\<close>; the
  third step is not dispatched.
\<close>

theorem HandleBatch_stops_at_second_step:
  assumes "JsonBody Request = Some b"
    and "TryGetArrayField b ''requests'' = Some [s0, s1, s2]"
    and "StopOnError E b"
    and "AsObject s0 = Some o0" and "AsObject s1 = Some o1"
    and "DispatchInternal Router (InternalRequest E o0 []) w = (r0, w1)"
    and "IsSuccess r0"
    and "DispatchInternal Router (InternalRequest E o1 [Some (StepResult E 0 o0 r0)]) w1 = (r1, w2)"
    and "\<not> IsSuccess r1"
  shows "HandleBatch E (Some Router) Request w =
     (\<lparr>StatusCode = 200,
       ResponseJson = Some [(''success'', JBool False),
         (''results'', JArray [JObject (StepResult E 0 o0 r0), JObject (StepResult E 1 o1 r1)]),
         (''completed'', JNumber 1), (''failed'', JNumber 1)],
       RawBody = []\<rparr>, w2)"
proof -
  have "HandleBatch_loop E Router (StopOnError E b) 0 [s0, s1, s2] ([], 0, 0) w =
          (([Some (StepResult E 0 o0 r0), Some (StepResult E 1 o1 r1)], 1, 1), w2)"
    using assms(3-9) by simp
  from HandleBatch_run [OF assms(1,2) this] show ?thesis by simp
qed

text \<open>
  Claim C5 for the steps \<open>GET /a\<close>, \<open>GET /missing\<close>, \<open>GET /a\<close>: one request reaches a handler.
\<close>

theorem HandleBatch_stops_at_second_step_witness:
  "HandleBatch example_platform (Some example_routes)
     (batch_request
        [(''requests'', JArray [step ''get'' ''/a'', step ''GET'' ''/missing'', step ''GET'' ''/a''])])
     []
   = (\<lparr>StatusCode = 200,
       ResponseJson = Some [(''success'', JBool False),
         (''results'', JArray
            [JObject [(''index'', JNumber 0), (''method'', JString ''GET''),
               (''path'', JString ''/a''), (''status'', JNumber 200), (''success'', JBool True),
               (''data'', JObject [(''id'', JString ''abc'')])],
             JObject [(''index'', JNumber 1), (''method'', JString ''GET''),
               (''path'', JString ''/missing''), (''status'', JNumber 404),
               (''success'', JBool False),
               (''data'', JObject [(''success'', JBool False), (''error'', JString ''NOT_FOUND''),
                  (''message'', JString ''Route not found: GET:/missing'')])]]),
         (''completed'', JNumber 1), (''failed'', JNumber 1)],
       RawBody = []\<rparr>,
      [\<lparr>Path = ''/a'', Method = GET, QueryParams = [], PathParams = [], Body = [],
        JsonBody = None\<rparr>])"
proof -
  let ?b = "[(''requests'', JArray [step ''get'' ''/a'', step ''GET'' ''/missing'', step ''GET'' ''/a''])]"
  let ?o0 = "[(''method'', JString ''get''), (''path'', JString ''/a'')]"
  let ?o1 = "[(''method'', JString ''GET''), (''path'', JString ''/missing'')]"
  let ?q0 = "\<lparr>Path = ''/a'', Method = GET, QueryParams = [], PathParams = [], Body = [],
              JsonBody = None\<rparr>"
  let ?r0 = "Ok (Some [(''id'', JString ''abc'')])"
  let ?r1 = "NotFound ''Route not found: GET:/missing''"
  have h1: "JsonBody (batch_request ?b) = Some ?b"
    by (simp add: batch_request_def)
  have h2: "TryGetArrayField ?b ''requests''
              = Some [step ''get'' ''/a'', step ''GET'' ''/missing'', step ''GET'' ''/a'']"
    by (simp add: TryGetArrayField_def)
  have h3: "StopOnError example_platform ?b"
    by (simp add: StopOnError_def HasField_def SameName_def ToUpper_def char_ToUpper_def)
  have h4: "AsObject (step ''get'' ''/a'') = Some ?o0"
    by (simp add: step_def)
  have h5: "AsObject (step ''GET'' ''/missing'') = Some ?o1"
    by (simp add: step_def)
  have h6: "DispatchInternal example_routes (InternalRequest example_platform ?o0 []) []
              = (?r0, [?q0])"
    by (simp add: example_defs batch_defs)
  have h7: "IsSuccess ?r0"
    by (simp add: IsSuccess_def Ok_def)
  have h8: "DispatchInternal example_routes
              (InternalRequest example_platform ?o1 [Some (StepResult example_platform 0 ?o0 ?r0)])
              [?q0]
              = (?r1, [?q0])"
    by (simp add: example_defs batch_defs)
  have h9: "\<not> IsSuccess ?r1"
    by (simp add: IsSuccess_def response_defs)
  show ?thesis
    using HandleBatch_stops_at_second_step [OF h1 h2 h3 h4 h5 h6 h7 h8 h9]
    by (simp add: batch_defs response_defs)
qed

subsection \<open>The method of a step\<close>

text \<open>
  Claim C10. For every step that is an object, the \<open>method\<close> field is read as a string,
  upper-cased and compared with \<open>POST\<close>, \<open>PUT\<close> and \<open>DELETE\<close>; any other outcome, that
  of a missing field included, gives the request built for the step the method \<open>GET\<close>.
  The loop dispatches this request and records the response it gets, rather than rejecting
  the step.
\<close>

theorem step_method_defaults_to_GET:
  assumes "AsObject x = Some ReqObj"
  shows "Method (InternalRequest E ReqObj Results) =
       (let MethodStr = ToUpper (GetStringField E ReqObj ''method'') in
        if MethodStr = ''POST'' then POST
        else if MethodStr = ''PUT'' then PUT
        else if MethodStr = ''DELETE'' then DELETE
        else GET)
     \<and> (ToUpper (GetStringField E ReqObj ''method'') \<notin> {''POST'', ''PUT'', ''DELETE''} \<longrightarrow>
          Method (InternalRequest E ReqObj Results) = GET)
     \<and> (\<not> HasField ReqObj ''method'' \<longrightarrow> Method (InternalRequest E ReqObj Results) = GET)
     \<and> (\<exists>rest. fst (fst (HandleBatch_loop E Router stop i (x # xs) (Results, C, F) w)) =
           Results
           @ Some (StepResult E i ReqObj
                     (fst (DispatchInternal Router (InternalRequest E ReqObj Results) w)))
           # rest)"
proof (intro conjI impI)
  show "Method (InternalRequest E ReqObj Results) =
       (let MethodStr = ToUpper (GetStringField E ReqObj ''method'') in
        if MethodStr = ''POST'' then POST
        else if MethodStr = ''PUT'' then PUT
        else if MethodStr = ''DELETE'' then DELETE
        else GET)"
    by (simp add: InternalRequest_def ParseMethod_def Let_def)
next
  assume "ToUpper (GetStringField E ReqObj ''method'') \<notin> {''POST'', ''PUT'', ''DELETE''}"
  then show "Method (InternalRequest E ReqObj Results) = GET"
    by (simp add: InternalRequest_def ParseMethod_def Let_def)
next
  assume "\<not> HasField ReqObj ''method''"
  then have "GetStringField E ReqObj ''method'' = []"
    by (simp add: HasField_def GetStringField_def)
  then show "Method (InternalRequest E ReqObj Results) = GET"
    by (simp add: InternalRequest_def ParseMethod_def ToUpper_def Let_def)
next
  obtain resp w1 where
    d: "DispatchInternal Router (InternalRequest E ReqObj Results) w = (resp, w1)"
    by (cases "DispatchInternal Router (InternalRequest E ReqObj Results) w")
  obtain ra where a: "fst (fst (HandleBatch_loop E Router stop (i + 1) xs
      (Results @ [Some (StepResult E i ReqObj resp)], C + 1, F) w1))
      = (Results @ [Some (StepResult E i ReqObj resp)]) @ ra"
    using HandleBatch_loop_extends
      [where E = E and Router = Router and stop = stop and i = "i + 1" and xs = xs
         and Rs = "Results @ [Some (StepResult E i ReqObj resp)]" and C = "C + 1" and F = F
         and w = w1]
    by auto
  obtain rb where b: "fst (fst (HandleBatch_loop E Router stop (i + 1) xs
      (Results @ [Some (StepResult E i ReqObj resp)], C, F + 1) w1))
      = (Results @ [Some (StepResult E i ReqObj resp)]) @ rb"
    using HandleBatch_loop_extends
      [where E = E and Router = Router and stop = stop and i = "i + 1" and xs = xs
         and Rs = "Results @ [Some (StepResult E i ReqObj resp)]" and C = C and F = "F + 1"
         and w = w1]
    by auto
  show "\<exists>rest. fst (fst (HandleBatch_loop E Router stop i (x # xs) (Results, C, F) w)) =
           Results
           @ Some (StepResult E i ReqObj
                     (fst (DispatchInternal Router (InternalRequest E ReqObj Results) w)))
           # rest"
    using assms d a b by (auto simp: Let_def)
qed

text \<open>
  Claim C10 for the methods \<open>patch\<close> and \<open>post\<close> and for a step without a \<open>method\<close> field.
\<close>

theorem step_method_defaults_to_GET_witness:
  "ToUpper (GetStringField example_platform
       [(''method'', JString ''patch''), (''path'', JString ''/a'')] ''method'') = ''PATCH''
   \<and> Method (InternalRequest example_platform
       [(''method'', JString ''patch''), (''path'', JString ''/a'')] []) = GET
   \<and> Method (InternalRequest example_platform
       [(''method'', JString ''post''), (''path'', JString ''/a'')] []) = POST
   \<and> Method (InternalRequest example_platform [(''path'', JString ''/a'')] []) = GET
   \<and> (\<exists>rest. fst (fst (HandleBatch_loop example_platform example_routes True 0
          [step ''patch'' ''/a''] ([], 0, 0) []))
        = Some [(''index'', JNumber 0), (''method'', JString ''PATCH''),
                (''path'', JString ''/a''), (''status'', JNumber 200), (''success'', JBool True),
                (''data'', JObject [(''id'', JString ''abc'')])] # rest)"
proof -
  let ?o = "[(''method'', JString ''patch''), (''path'', JString ''/a'')]"
  let ?o' = "[(''path'', JString ''/a'')]"
  let ?o'' = "[(''method'', JString ''post''), (''path'', JString ''/a'')]"
  have u: "ToUpper (GetStringField example_platform ?o ''method'') = ''PATCH''"
    by (simp add: GetStringField_def ToUpper_def char_ToUpper_def)
  have u'': "ToUpper (GetStringField example_platform ?o'' ''method'') = ''POST''"
    by (simp add: GetStringField_def ToUpper_def char_ToUpper_def)
  have h: "AsObject (step ''patch'' ''/a'') = Some ?o"
    by (simp add: step_def)
  have h': "AsObject (JObject ?o') = Some ?o'"
    by simp
  have h'': "AsObject (JObject ?o'') = Some ?o''"
    by simp
  have m: "\<not> HasField ?o' ''method''"
    by (simp add: HasField_def SameName_def ToUpper_def char_ToUpper_def)
  have d: "DispatchInternal example_routes (InternalRequest example_platform ?o []) []
             = (Ok (Some [(''id'', JString ''abc'')]),
                [\<lparr>Path = ''/a'', Method = GET, QueryParams = [], PathParams = [], Body = [],
                  JsonBody = None\<rparr>])"
    by (simp add: example_defs batch_defs)
  have r: "StepResult example_platform 0 ?o (Ok (Some [(''id'', JString ''abc'')]))
             = [(''index'', JNumber 0), (''method'', JString ''PATCH''),
                (''path'', JString ''/a''), (''status'', JNumber 200), (''success'', JBool True),
                (''data'', JObject [(''id'', JString ''abc'')])]"
    by (simp add: batch_defs response_defs)
  note t = step_method_defaults_to_GET
    [OF h, where E = example_platform and Results = "[]" and Router = example_routes
       and stop = True and i = 0 and xs = "[]" and C = 0 and F = 0 and w = "[]"]
  note t' = step_method_defaults_to_GET
    [OF h', where E = example_platform and Results = "[]" and Router = example_routes
       and stop = True and i = 0 and xs = "[]" and C = 0 and F = 0 and w = "[]"]
  note t'' = step_method_defaults_to_GET
    [OF h'', where E = example_platform and Results = "[]" and Router = example_routes
       and stop = True and i = 0 and xs = "[]" and C = 0 and F = 0 and w = "[]"]
  from t u have c2: "Method (InternalRequest example_platform ?o []) = GET"
    by simp
  from t'' u'' have c3: "Method (InternalRequest example_platform ?o'' []) = POST"
    by (simp add: Let_def)
  from t' m have c4: "Method (InternalRequest example_platform ?o' []) = GET"
    by blast
  from t have "\<exists>rest. fst (fst (HandleBatch_loop example_platform example_routes True 0
          [step ''patch'' ''/a''] ([], 0, 0) []))
        = [] @ Some (StepResult example_platform 0 ?o
                 (fst (DispatchInternal example_routes
                         (InternalRequest example_platform ?o []) []))) # rest"
    by blast
  then have c5: "\<exists>rest. fst (fst (HandleBatch_loop example_platform example_routes True 0
          [step ''patch'' ''/a''] ([], 0, 0) []))
        = Some [(''index'', JNumber 0), (''method'', JString ''PATCH''),
                (''path'', JString ''/a''), (''status'', JNumber 200), (''success'', JBool True),
                (''data'', JObject [(''id'', JString ''abc'')])] # rest"
    unfolding d by (simp only: fst_conv append_Nil r)
  from u c2 c3 c4 c5 show ?thesis
    by blast
qed

subsection \<open>References to an earlier step\<close>

text \<open>
  The result record of a dispatched step has the fields index, method, path, status, success
  and data, and the body of the response is the field \<open>data\<close>. A reference whose path is a
  single name that is none of these six, case ignored, finds nothing, whatever the response
  was; so a reference \<open>$0.id\<close> in the body of a later step stays as it is.
\<close>

lemma ToUpper_result_fields:
  "ToUpper ''index'' = ''INDEX''" "ToUpper ''method'' = ''METHOD''" "ToUpper ''path'' = ''PATH''"
  "ToUpper ''status'' = ''STATUS''" "ToUpper ''success'' = ''SUCCESS''" "ToUpper ''data'' = ''DATA''"
  by (simp_all add: ToUpper_def char_ToUpper_def)

lemma StepResult_record:
  "StepResult E Index ReqObj InternalResponse =
     [(''index'', JNumber (real Index)),
      (''method'', JString (ToUpper (GetStringField E ReqObj ''method''))),
      (''path'', JString (GetStringField E ReqObj ''path'')),
      (''status'', JNumber (real_of_int (StatusCode InternalResponse))),
      (''success'', JBool (IsSuccess InternalResponse))]
     @ (case ResponseJson InternalResponse of None \<Rightarrow> [] | Some Json \<Rightarrow> [(''data'', JObject Json)])"
  by (simp add: StepResult_def Let_def response_defs SameName_def ToUpper_result_fields
        split: option.splits)

lemma StepResult_fields:
  "FindField (StepResult E Index ReqObj InternalResponse) k \<noteq> None \<Longrightarrow>
   ToUpper k \<in> {''INDEX'', ''METHOD'', ''PATH'', ''STATUS'', ''SUCCESS'', ''DATA''}"
  by (auto simp: StepResult_record SameName_def ToUpper_result_fields
        split: option.splits if_splits)

lemma StepResult_data:
  "ResponseJson InternalResponse = Some Json \<Longrightarrow>
   GetObjectField (StepResult E Index ReqObj InternalResponse) ''data'' = Some Json"
  by (simp add: StepResult_record GetObjectField_def SameName_def ToUpper_result_fields)

lemma reference_to_response_field_not_found:
  assumes "ToUpper k \<notin> {''INDEX'', ''METHOD'', ''PATH'', ''STATUS'', ''SUCCESS'', ''DATA''}"
    and "k \<noteq> []" and "CHR ''.'' \<notin> set k"
  shows "ExtractJsonPath (Some (StepResult E Index ReqObj InternalResponse)) k = None"
proof -
  have "FindField (StepResult E Index ReqObj InternalResponse) k = None"
    using StepResult_fields [of E Index ReqObj InternalResponse k] assms(1) by blast
  then show ?thesis
    using ParseIntoArray_single [OF assms(2,3)]
    by (simp add: ExtractJsonPath_def HasField_def)
qed

lemma reference_to_response_field_stays:
  "JsonBody (InternalRequest E
      [(''method'', JString m), (''path'', JString p),
       (''body'', JObject [(''ref'', JString ''$0.id'')])]
      [Some (StepResult E 0 ReqObj InternalResponse)])
   = Some [(''ref'', JString ''$0.id'')]"
proof -
  have "ExtractJsonPath (Some (StepResult E 0 ReqObj InternalResponse)) ''id'' = None"
    by (rule reference_to_response_field_not_found)
       (simp_all add: ToUpper_def char_ToUpper_def)
  then have "ResolveStringVariables E ''$0.id'' [Some (StepResult E 0 ReqObj InternalResponse)]
               = ''$0.id''"
    by (simp add: ResolveStringVariables_def ResolveMatch_def Atoi_def digit_value_def
          is_digit_def is_word_def is_path_char_def Let_def)
  then show ?thesis
    by (simp add: InternalRequest_def HasField_def GetObjectField_def response_defs
          SameName_def ToUpper_def char_ToUpper_def)
qed

text \<open>
  Claim C1 at the scenario of the specification. Step 0 is answered with the body
  \<open>{"id": "abc"}\<close> and the body of step 1 is \<open>{"ref": "$0.id"}\<close>. The world lists the requests
  that reached a handler: step 1 is dispatched with the body \<open>{"ref": "$0.id"}\<close>, the
  reference still in place, because the path \<open>id\<close> is looked up in the result record of
  step 0 (index, method, path, status, success, data) and not in the body that the response
  carried.
\<close>

theorem batch_reference_resolved_against_result_record:
  "snd (HandleBatch E (Some example_routes)
      (batch_request
         [(''requests'', JArray
             [step ''GET'' ''/a'',
              step_with_body ''POST'' ''/b'' [(''ref'', JString ''$0.id'')]])])
      [])
   = [\<lparr>Path = ''/a'', Method = GET, QueryParams = [], PathParams = [], Body = [],
       JsonBody = None\<rparr>,
      \<lparr>Path = ''/b'', Method = POST, QueryParams = [], PathParams = [], Body = [],
       JsonBody = Some [(''ref'', JString ''$0.id'')]\<rparr>]"
  by (simp add: example_defs batch_defs response_defs resolve_defs Let_def)

text \<open>
  The body of the response is the field \<open>data\<close> of the result record, so the reference
  \<open>$0.data.id\<close> does bring \<open>abc\<close> into step 1.
\<close>

lemma batch_reference_through_data:
  "snd (HandleBatch E (Some example_routes)
      (batch_request
         [(''requests'', JArray
             [step ''GET'' ''/a'',
              step_with_body ''POST'' ''/b'' [(''ref'', JString ''$0.data.id'')]])])
      [])
   = [\<lparr>Path = ''/a'', Method = GET, QueryParams = [], PathParams = [], Body = [],
       JsonBody = None\<rparr>,
      \<lparr>Path = ''/b'', Method = POST, QueryParams = [], PathParams = [], Body = [],
       JsonBody = Some [(''ref'', JString ''abc'')]\<rparr>]"
  by (simp add: example_defs batch_defs response_defs resolve_defs Let_def)

end
